theory Spec2Isabelle
  imports Complex_Main "HOL-Library.AList"
begin

section \<open>Data model\<close>

text \<open>
  Recipes are Python dicts. Every key except \<open>name\<close> is read with \<open>.get\<close> or guarded by
  \<open>k in recipe\<close>, so every field is optional; \<open>r["name"]\<close> raises \<open>KeyError\<close> when the
  key is absent. Numeric fields hold integers, as in the shipped catalog and the fallback
  recipe. The dict key \<open>type\<close> is the field \<open>rtype\<close>.
\<close>

record recipe =
  name :: "string option"
  ingredients :: "(string \<times> int) list option"
  calories :: "int option"
  protein :: "int option"
  carbs :: "int option"
  fat :: "int option"
  prep_time :: "int option"
  rtype :: "string option"

datatype error = KeyError

text \<open>
  Recipe dicts are shared objects: the catalog, the filtered pools and the plan all hold
  references to them. The store maps a reference to the dict it denotes; \<open>next_ref\<close> is the
  first reference not yet handed out.
\<close>

type_synonym ref = nat

record store =
  cells :: "ref \<Rightarrow> recipe"
  next_ref :: ref

definition alloc :: "recipe \<Rightarrow> store \<Rightarrow> ref \<times> store" where
  "alloc r s = (next_ref s, s\<lparr>cells := (cells s)(next_ref s := r), next_ref := Suc (next_ref s)\<rparr>)"

text \<open>A day's dict; \<open>meals\<close> maps the slot name to the recipe object, in insertion order.\<close>

record day_plan =
  meals :: "(string \<times> ref) list"
  total_calories :: int
  nutrition_score :: rat
  variety_score :: rat

type_synonym weekly_plan = "(string \<times> day_plan) list"

record preferences =
  diet_type :: "string option"
  calorie_target :: "int option"
  allergies :: "string list option"
  cuisine_preference :: "string option"

section \<open>Weekly calorie normalizer (\<open>_optimize_with_ai\<close>)\<close>

text \<open>
  Python's \<open>/\<close> on integers and the product with the resulting factor are taken exactly, as
  rationals; \<open>int(x)\<close> truncates towards zero.
\<close>

definition py_int :: "rat \<Rightarrow> int" where
  "py_int q = (if 0 \<le> q then \<lfloor>q\<rfloor> else \<lceil>q\<rceil>)"

text \<open>\<open>if k in recipe: recipe[k] = max(0, int(recipe[k] * adjustment_factor))\<close>\<close>

definition scale_field :: "rat \<Rightarrow> int option \<Rightarrow> int option" where
  "scale_field f v = (case v of None \<Rightarrow> None | Some x \<Rightarrow> Some (max 0 (py_int (of_int x * f))))"

definition scale_recipe :: "rat \<Rightarrow> recipe \<Rightarrow> recipe" where
  "scale_recipe f r =
     r\<lparr>calories := scale_field f (calories r),
       protein := scale_field f (protein r),
       carbs := scale_field f (carbs r),
       fat := scale_field f (fat r)\<rparr>"

text \<open>The inner loop over \<open>day_plan["meals"].items()\<close>: each recipe object is updated in place.\<close>

fun scale_meals :: "rat \<Rightarrow> (string \<times> ref) list \<Rightarrow> (ref \<Rightarrow> recipe) \<Rightarrow> (ref \<Rightarrow> recipe)" where
  "scale_meals f [] h = h"
| "scale_meals f ((mname, r) # ms) h = scale_meals f ms (h(r := scale_recipe f (h r)))"

text \<open>The outer loop over \<open>weekly_plan.items()\<close>.\<close>

fun scale_days :: "rat \<Rightarrow> weekly_plan \<Rightarrow> (ref \<Rightarrow> recipe) \<Rightarrow> weekly_plan \<times> (ref \<Rightarrow> recipe)" where
  "scale_days f [] h = ([], h)"
| "scale_days f ((day, p) # ds) h =
     (let h1 = scale_meals f (meals p) h;
          p1 = p\<lparr>total_calories := py_int (of_int (total_calories p) * f)\<rparr>;
          rest = scale_days f ds h1
      in ((day, p1) # fst rest, snd rest))"

definition get_calorie_target :: "preferences \<Rightarrow> int" where
  "get_calorie_target user_preferences =
     (case calorie_target user_preferences of None \<Rightarrow> 2000 | Some c \<Rightarrow> c)"

definition weekly_total :: "weekly_plan \<Rightarrow> int" where
  "weekly_total weekly_plan = sum_list (map (\<lambda>(day, p). total_calories p) weekly_plan)"

definition optimize_with_ai :: "weekly_plan \<Rightarrow> preferences \<Rightarrow> store \<Rightarrow> weekly_plan \<times> store" where
  "optimize_with_ai weekly_plan user_preferences s =
     (let total_weekly_calories = weekly_total weekly_plan;
          target_weekly_calories = get_calorie_target user_preferences * 7
      in if total_weekly_calories > 0 then
           (let adjustment_factor = of_int target_weekly_calories / of_int total_weekly_calories;
                res = scale_days adjustment_factor weekly_plan (cells s)
            in (fst res, s\<lparr>cells := snd res\<rparr>))
         else (weekly_plan, s))"

section \<open>Constraint filter (the comprehension in \<open>generate_personalized_plan\<close>)\<close>

text \<open>Python's substring test \<open>a in s\<close> on strings.\<close>

fun str_prefix :: "string \<Rightarrow> string \<Rightarrow> bool" where
  "str_prefix [] s = True"
| "str_prefix (a # as) [] = False"
| "str_prefix (a # as) (c # s) = (a = c \<and> str_prefix as s)"

fun str_in :: "string \<Rightarrow> string \<Rightarrow> bool" where
  "str_in a [] = (a = [])"
| "str_in a (c # s) = (str_prefix a (c # s) \<or> str_in a s)"

text \<open>\<open>r.get("type", "vegetarian")\<close> and \<open>r.get("ingredients", {})\<close>\<close>

definition get_type :: "recipe \<Rightarrow> string" where
  "get_type r = (case rtype r of None \<Rightarrow> ''vegetarian'' | Some t \<Rightarrow> t)"

definition get_ingredients :: "recipe \<Rightarrow> (string \<times> int) list" where
  "get_ingredients r = (case ingredients r of None \<Rightarrow> [] | Some i \<Rightarrow> i)"

text \<open>
  The condition of the comprehension. \<open>json.dumps\<close> and \<open>str.lower\<close> belong to Python's
  library; they are the parameters \<open>dumps\<close> and \<open>lower\<close>, so that what is proved holds for
  whatever text they produce.
\<close>

definition keeps ::
  "((string \<times> int) list \<Rightarrow> string) \<Rightarrow> (string \<Rightarrow> string) \<Rightarrow> string \<Rightarrow> string list \<Rightarrow> recipe \<Rightarrow> bool" where
  "keeps dumps lower diet allergy_list r =
     ((get_type r = diet \<or> diet = ''mixed'')
      \<and> \<not> list_ex (\<lambda>allergy. str_in (lower allergy) (lower (dumps (get_ingredients r)))) allergy_list)"

definition filter_pool ::
  "((string \<times> int) list \<Rightarrow> string) \<Rightarrow> (string \<Rightarrow> string) \<Rightarrow> (ref \<Rightarrow> recipe) \<Rightarrow> ref list
     \<Rightarrow> string \<Rightarrow> string list \<Rightarrow> ref list" where
  "filter_pool dumps lower h pool diet allergy_list =
     filter (\<lambda>r. keeps dumps lower diet allergy_list (h r)) pool"

text \<open>A dict from slot name to pool; \<open>.get(meal_type, [])\<close>.\<close>

type_synonym pools = "(string \<times> ref list) list"

definition pool_get :: "pools \<Rightarrow> string \<Rightarrow> ref list" where
  "pool_get ps meal_type = (case map_of ps meal_type of None \<Rightarrow> [] | Some pool \<Rightarrow> pool)"

section \<open>Repeat-avoiding selector (\<open>pick_recipe\<close>)\<close>

text \<open>
  \<open>random.choice(seq)\<close> on a non-empty sequence: the random source is a function from the
  number of draws made so far to a natural number, reduced modulo the length.
\<close>

definition random_choice :: "(nat \<Rightarrow> nat) \<Rightarrow> nat \<Rightarrow> 'a list \<Rightarrow> 'a" where
  "random_choice rnd k xs = xs ! (rnd k mod length xs)"

text \<open>
  The result is the chosen object (or \<open>None\<close>), the used set after the call and the number
  of draws after the call. The comprehension reads \<open>r["name"]\<close> of every pool entry, so a
  pool entry without a name raises.
\<close>

definition pick_recipe ::
  "(nat \<Rightarrow> nat) \<Rightarrow> (ref \<Rightarrow> recipe) \<Rightarrow> ref list \<Rightarrow> string set \<Rightarrow> nat
     \<Rightarrow> error + (ref option \<times> string set \<times> nat)" where
  "pick_recipe rnd h pool used_set k =
     (if pool = [] then Inr (None, used_set, k)
      else if list_ex (\<lambda>r. name (h r) = None) pool then Inl KeyError
      else
        (let candidates = filter (\<lambda>r. the (name (h r)) \<notin> used_set) pool;
             choice = (if candidates \<noteq> [] then random_choice rnd k candidates
                       else random_choice rnd k pool)
         in Inr (Some choice, insert (the (name (h choice))) used_set, Suc k)))"

text \<open>\<open>str.title\<close> on ASCII text: a letter after a non-letter is upper case, any other lower.\<close>

definition is_lower :: "char \<Rightarrow> bool" where
  "is_lower c = (97 \<le> (of_char c :: nat) \<and> (of_char c :: nat) \<le> 122)"

definition is_upper :: "char \<Rightarrow> bool" where
  "is_upper c = (65 \<le> (of_char c :: nat) \<and> (of_char c :: nat) \<le> 90)"

definition to_upper :: "char \<Rightarrow> char" where
  "to_upper c = (if is_lower c then char_of ((of_char c :: nat) - 32) else c)"

definition to_lower :: "char \<Rightarrow> char" where
  "to_lower c = (if is_upper c then char_of ((of_char c :: nat) + 32) else c)"

fun title_from :: "bool \<Rightarrow> string \<Rightarrow> string" where
  "title_from prev [] = []"
| "title_from prev (c # cs) =
     (if prev then to_lower c else to_upper c) # title_from (is_lower c \<or> is_upper c) cs"

definition title :: "string \<Rightarrow> string" where
  "title s = title_from False s"

definition create_fallback_meal :: "string \<Rightarrow> string \<Rightarrow> recipe" where
  "create_fallback_meal meal_type diet =
     \<lparr>name = Some (''Fallback '' @ title meal_type),
      ingredients = Some [(''basic_food'', 100), (''vegetables'', 50)],
      calories = Some 300,
      protein = Some 15,
      carbs = Some 40,
      fat = Some 8,
      prep_time = Some 15,
      rtype = Some diet\<rparr>"

section \<open>Scores\<close>

definition get_or :: "'a option \<Rightarrow> 'a \<Rightarrow> 'a" where
  "get_or v d = (case v of None \<Rightarrow> d | Some x \<Rightarrow> x)"

text \<open>\<open>_calculate_nutrition_score\<close>, on \<open>meals.values()\<close>.\<close>

definition calculate_nutrition_score :: "recipe list \<Rightarrow> rat" where
  "calculate_nutrition_score ms =
     (let total_protein = sum_list (map (\<lambda>meal. get_or (protein meal) 0) ms);
          total_carbs = sum_list (map (\<lambda>meal. get_or (carbs meal) 0) ms);
          total_fat = sum_list (map (\<lambda>meal. get_or (fat meal) 0) ms);
          denom = total_protein + total_carbs + total_fat;
          protein_ratio = (if denom > 0 then of_int total_protein / of_int denom else 33 / 100)
      in min 10 (\<bar>protein_ratio - 3 / 10\<bar> * 100))"

text \<open>
  \<open>_calculate_variety_score\<close>, on \<open>meals.values()\<close> and the recent list, whose entries are
  names or \<open>None\<close>. \<open>meal["name"]\<close> raises on a meal without a name.
\<close>

definition calculate_variety_score :: "recipe list \<Rightarrow> string option list \<Rightarrow> error + rat" where
  "calculate_variety_score ms recent_list =
     (if list_ex (\<lambda>meal. name meal = None) ms then Inl KeyError
      else
        (let current_meals = map name ms;
             recent_meals = recent_list;
             new_meals = set current_meals - set recent_meals;
             variety = (if current_meals \<noteq> []
                        then of_nat (card new_meals) / of_nat (length current_meals) * 10
                        else 5)
         in Inr (min 10 variety)))"

text \<open>
  The history file is a list of entries, or unreadable (\<open>None\<close>). Of an entry the planner
  reads the user id and, for every stored day, the names of that day's meals
  (\<open>m.get("name")\<close>, \<open>None\<close> where a stored meal has no name).
\<close>

record history_entry =
  entry_user_id :: "string option"
  meal_plan :: "string option list list"

text \<open>\<open>history[-3:]\<close>\<close>

definition last3 :: "'a list \<Rightarrow> 'a list" where
  "last3 xs = drop (length xs - 3) xs"

definition get_user_meal_history_scores :: "history_entry list option \<Rightarrow> string option list" where
  "get_user_meal_history_scores history_file =
     (case history_file of
        None \<Rightarrow> []
      | Some history \<Rightarrow> concat (map (\<lambda>entry. concat (meal_plan entry)) (last3 history)))"

definition get_user_meal_history :: "history_entry list option \<Rightarrow> string \<Rightarrow> history_entry list" where
  "get_user_meal_history history_file user_id =
     (case history_file of
        None \<Rightarrow> []
      | Some history \<Rightarrow> filter (\<lambda>h. entry_user_id h = Some user_id) history)"

section \<open>Daily plan assembler (\<open>_generate_daily_plan\<close>)\<close>

text \<open>
  What one weekly generation threads through its seven days: the store of recipe objects,
  the three used sets and the number of random draws made so far.
\<close>

record gen_state =
  heap :: store
  used_breakfasts :: "string set"
  used_lunches :: "string set"
  used_dinners :: "string set"
  draws :: nat

text \<open>
  \<open>pick_recipe(pool, used) or self._create_fallback_meal(meal_type, "vegetarian")\<close>: a chosen
  recipe has a name, so it is a non-empty dict and truthy; only \<open>None\<close> reaches the right
  operand, which builds a new dict.
\<close>

definition pick_or_fallback ::
  "(nat \<Rightarrow> nat) \<Rightarrow> ref list \<Rightarrow> string \<Rightarrow> string set \<Rightarrow> store \<Rightarrow> nat
     \<Rightarrow> error + (ref \<times> string set \<times> store \<times> nat)" where
  "pick_or_fallback rnd pool meal_type used_set s k =
     (case pick_recipe rnd (cells s) pool used_set k of
        Inl e \<Rightarrow> Inl e
      | Inr (None, used', k') \<Rightarrow>
          (let a = alloc (create_fallback_meal meal_type ''vegetarian'') s
           in Inr (fst a, used', snd a, k'))
      | Inr (Some r, used', k') \<Rightarrow> Inr (r, used', s, k'))"

definition generate_daily_plan ::
  "(nat \<Rightarrow> nat) \<Rightarrow> history_entry list option \<Rightarrow> pools \<Rightarrow> nat \<Rightarrow> int \<Rightarrow> gen_state
     \<Rightarrow> error + (day_plan \<times> gen_state)" where
  "generate_daily_plan rnd history_file ps day_index target g =
     (case pick_or_fallback rnd (pool_get ps ''breakfast'') ''breakfast''
             (used_breakfasts g) (heap g) (draws g) of
        Inl e \<Rightarrow> Inl e
      | Inr (breakfast, ub, s1, k1) \<Rightarrow>
     (case pick_or_fallback rnd (pool_get ps ''lunch'') ''lunch'' (used_lunches g) s1 k1 of
        Inl e \<Rightarrow> Inl e
      | Inr (lunch, ul, s2, k2) \<Rightarrow>
     (case pick_or_fallback rnd (pool_get ps ''dinner'') ''dinner'' (used_dinners g) s2 k2 of
        Inl e \<Rightarrow> Inl e
      | Inr (dinner, ud, s3, k3) \<Rightarrow>
          (let ms = [(''breakfast'', breakfast), (''lunch'', lunch), (''dinner'', dinner)];
               h = cells s3;
               total = get_or (calories (h breakfast)) 300 + get_or (calories (h lunch)) 400
                         + get_or (calories (h dinner)) 350
           in case calculate_variety_score (map (\<lambda>(m, r). h r) ms)
                     (get_user_meal_history_scores history_file) of
                Inl e \<Rightarrow> Inl e
              | Inr variety \<Rightarrow>
                  Inr (\<lparr>meals = ms, total_calories = total,
                        nutrition_score = calculate_nutrition_score (map (\<lambda>(m, r). h r) ms),
                        variety_score = variety\<rparr>,
                       \<lparr>heap = s3, used_breakfasts = ub, used_lunches = ul,
                        used_dinners = ud, draws = k3\<rparr>)))))"

section \<open>Weekly generation (\<open>generate_personalized_plan\<close>)\<close>

definition days :: "string list" where
  "days = [''Monday'', ''Tuesday'', ''Wednesday'', ''Thursday'', ''Friday'', ''Saturday'', ''Sunday'']"

definition enumerate :: "'a list \<Rightarrow> (nat \<times> 'a) list" where
  "enumerate xs = zip [0..<length xs] xs"

text \<open>The loop over \<open>enumerate(days)\<close>; \<open>weekly_plan[day] = daily_plan\<close> is a dict assignment.\<close>

fun generate_days ::
  "(nat \<Rightarrow> nat) \<Rightarrow> history_entry list option \<Rightarrow> pools \<Rightarrow> int \<Rightarrow> (nat \<times> string) list
     \<Rightarrow> weekly_plan \<Rightarrow> gen_state \<Rightarrow> error + (weekly_plan \<times> gen_state)" where
  "generate_days rnd history_file ps target [] wp g = Inr (wp, g)"
| "generate_days rnd history_file ps target ((i, day) # rest) wp g =
     (case generate_daily_plan rnd history_file ps i target g of
        Inl e \<Rightarrow> Inl e
      | Inr (daily_plan, g') \<Rightarrow>
          generate_days rnd history_file ps target rest (AList.update day daily_plan wp) g')"

text \<open>The loop that fills \<open>pools\<close> from \<open>self.recipe_db["recipes"]\<close>.\<close>

definition make_pools ::
  "((string \<times> int) list \<Rightarrow> string) \<Rightarrow> (string \<Rightarrow> string) \<Rightarrow> (ref \<Rightarrow> recipe) \<Rightarrow> pools
     \<Rightarrow> string \<Rightarrow> string list \<Rightarrow> pools" where
  "make_pools dumps lower h recipes diet allergy_list =
     fold (\<lambda>meal_type ps.
             AList.update meal_type
               (filter_pool dumps lower h (pool_get recipes meal_type) diet allergy_list) ps)
          [''breakfast'', ''lunch'', ''dinner''] []"

definition generate_personalized_plan ::
  "((string \<times> int) list \<Rightarrow> string) \<Rightarrow> (string \<Rightarrow> string) \<Rightarrow> (nat \<Rightarrow> nat)
     \<Rightarrow> history_entry list option \<Rightarrow> pools \<Rightarrow> preferences \<Rightarrow> string \<Rightarrow> store
     \<Rightarrow> error + (weekly_plan \<times> store)" where
  "generate_personalized_plan dumps lower rnd history_file recipes user_preferences user_id s =
     (let user_history = get_user_meal_history history_file user_id;
          diet = get_or (diet_type user_preferences) ''vegetarian'';
          target = get_or (calorie_target user_preferences) 2000;
          allergy_list = get_or (allergies user_preferences) [];
          cuisine_pref = get_or (cuisine_preference user_preferences) ''any'';
          ps = make_pools dumps lower (cells s) recipes diet allergy_list;
          g0 = \<lparr>heap = s, used_breakfasts = {}, used_lunches = {}, used_dinners = {}, draws = 0\<rparr>
      in case generate_days rnd history_file ps target (enumerate days) [] g0 of
           Inl e \<Rightarrow> Inl e
         | Inr (weekly_plan, g) \<Rightarrow> Inr (optimize_with_ai weekly_plan user_preferences (heap g)))"

section \<open>\<open>SimpleMealGenerator\<close> (main agent)\<close>

text \<open>
  This generator never changes a recipe dict, so its plans hold the recipes as values.
  \<open>r['type']\<close> and \<open>selected_recipe['calories']\<close> raise on a recipe without the key.
\<close>

definition mk_recipe ::
  "string \<Rightarrow> (string \<times> int) list \<Rightarrow> int \<Rightarrow> int \<Rightarrow> int \<Rightarrow> int \<Rightarrow> int \<Rightarrow> string \<Rightarrow> recipe" where
  "mk_recipe n i c p cb f t ty =
     \<lparr>name = Some n, ingredients = Some i, calories = Some c, protein = Some p,
      carbs = Some cb, fat = Some f, prep_time = Some t, rtype = Some ty\<rparr>"

definition create_sample_recipes :: "(string \<times> recipe list) list" where
  "create_sample_recipes =
     [(''breakfast'',
        [mk_recipe ''Masala Oats''
           [(''oats'', 50), (''vegetables'', 100), (''spices'', 10), (''oil'', 5)]
           250 12 40 6 15 ''vegetarian'',
         mk_recipe ''Paneer Paratha''
           [(''whole_wheat_flour'', 80), (''paneer'', 100), (''spices'', 10), (''oil'', 8)]
           380 18 45 15 25 ''vegetarian'',
         mk_recipe ''Egg Bhurji''
           [(''eggs'', 3), (''onion'', 50), (''tomato'', 50), (''spices'', 10), (''oil'', 7)]
           280 20 10 18 15 ''non-vegetarian'']),
      (''lunch'',
        [mk_recipe ''Dal Rice with Salad''
           [(''rice'', 150), (''dal'', 100), (''vegetables'', 200), (''spices'', 15), (''oil'', 10)]
           450 22 75 12 30 ''vegetarian'',
         mk_recipe ''Chicken Curry with Roti''
           [(''chicken'', 200), (''whole_wheat_flour'', 100), (''spices'', 20), (''oil'', 15)]
           520 35 45 22 40 ''non-vegetarian'']),
      (''dinner'',
        [mk_recipe ''Vegetable Khichdi''
           [(''rice'', 100), (''dal'', 80), (''vegetables'', 150), (''spices'', 10), (''ghee'', 8)]
           380 15 60 10 25 ''vegetarian'',
         mk_recipe ''Grilled Fish with Vegetables''
           [(''fish'', 150), (''vegetables'', 200), (''lemon'', 1), (''spices'', 10), (''oil'', 5)]
           320 28 15 18 20 ''non-vegetarian''])]"

record simple_day =
  s_meals :: "(string \<times> recipe) list"
  s_total_calories :: int

definition simple_fallback :: "string \<Rightarrow> string \<Rightarrow> recipe" where
  "simple_fallback meal_type diet =
     \<lparr>name = Some (''Simple '' @ meal_type),
      ingredients = Some [(''basic_food'', 100)],
      calories = Some 300,
      protein = Some 10,
      carbs = Some 40,
      fat = Some 8,
      prep_time = Some 10,
      rtype = Some diet\<rparr>"

text \<open>One round of the loop over the three meal types; the state is the day and the draws.\<close>

definition simple_slot ::
  "(nat \<Rightarrow> nat) \<Rightarrow> (string \<times> recipe list) list \<Rightarrow> string \<Rightarrow> string
     \<Rightarrow> error + (simple_day \<times> nat) \<Rightarrow> error + (simple_day \<times> nat)" where
  "simple_slot rnd recipes diet meal_type acc =
     (case acc of
        Inl e \<Rightarrow> Inl e
      | Inr (d, k) \<Rightarrow>
          (let available_recipes =
                 (case map_of recipes meal_type of None \<Rightarrow> [] | Some rs \<Rightarrow> rs)
           in if list_ex (\<lambda>r. rtype r = None) available_recipes then Inl KeyError
              else
                (let filtered_recipes =
                       filter (\<lambda>r. rtype r = Some diet \<or> diet = ''mixed'') available_recipes
                 in if filtered_recipes \<noteq> [] then
                      (let selected_recipe = random_choice rnd k filtered_recipes
                       in case calories selected_recipe of
                            None \<Rightarrow> Inl KeyError
                          | Some c \<Rightarrow>
                              Inr (\<lparr>s_meals = AList.update meal_type selected_recipe (s_meals d),
                                    s_total_calories = s_total_calories d + c\<rparr>, Suc k))
                    else
                      Inr (\<lparr>s_meals = AList.update meal_type (simple_fallback meal_type diet) (s_meals d),
                            s_total_calories = s_total_calories d + 300\<rparr>, k))))"

definition generate_daily_meal_plan ::
  "(nat \<Rightarrow> nat) \<Rightarrow> (string \<times> recipe list) list \<Rightarrow> string \<Rightarrow> nat \<Rightarrow> error + (simple_day \<times> nat)" where
  "generate_daily_meal_plan rnd recipes diet k =
     fold (simple_slot rnd recipes diet) [''breakfast'', ''lunch'', ''dinner'']
       (Inr (\<lparr>s_meals = [], s_total_calories = 0\<rparr>, k))"

fun simple_days ::
  "(nat \<Rightarrow> nat) \<Rightarrow> (string \<times> recipe list) list \<Rightarrow> string \<Rightarrow> string list
     \<Rightarrow> (string \<times> simple_day) list \<Rightarrow> nat \<Rightarrow> error + ((string \<times> simple_day) list \<times> nat)" where
  "simple_days rnd recipes diet [] wp k = Inr (wp, k)"
| "simple_days rnd recipes diet (day # rest) wp k =
     (case generate_daily_meal_plan rnd recipes diet k of
        Inl e \<Rightarrow> Inl e
      | Inr (d, k') \<Rightarrow> simple_days rnd recipes diet rest (AList.update day d wp) k')"

definition generate_weekly_plan ::
  "(nat \<Rightarrow> nat) \<Rightarrow> string \<Rightarrow> nat \<Rightarrow> error + ((string \<times> simple_day) list \<times> nat)" where
  "generate_weekly_plan rnd diet k = simple_days rnd create_sample_recipes diet days [] k"

section \<open>Loading a catalog, and an ASCII instance of the library functions\<close>

text \<open>
  \<open>json.load\<close> builds a new dict for every recipe of the file: the loaded catalog holds
  consecutive references, and nothing else refers to them.
\<close>

definition empty_recipe :: recipe where
  "empty_recipe = \<lparr>name = None, ingredients = None, calories = None, protein = None,
     carbs = None, fat = None, prep_time = None, rtype = None\<rparr>"

fun assign_refs :: "nat \<Rightarrow> (string \<times> recipe list) list \<Rightarrow> pools" where
  "assign_refs n [] = []"
| "assign_refs n ((k, rs) # rest) = (k, [n..<n + length rs]) # assign_refs (n + length rs) rest"

definition load_recipes :: "(string \<times> recipe list) list \<Rightarrow> pools \<times> store" where
  "load_recipes cat =
     (let xs = concat (map snd cat)
      in (assign_refs 0 cat,
          \<lparr>cells = (\<lambda>r. if r < length xs then xs ! r else empty_recipe), next_ref = length xs\<rparr>))"

text \<open>
  \<open>str.lower\<close> and \<open>json.dumps\<close> on ASCII text without characters that JSON escapes, for
  evaluating the model on concrete catalogs.
\<close>

definition ascii_lower :: "string \<Rightarrow> string" where
  "ascii_lower s = map to_lower s"

fun show_nat :: "nat \<Rightarrow> string" where
  "show_nat n =
     (if n < 10 then [char_of (48 + n)] else show_nat (n div 10) @ [char_of (48 + n mod 10)])"

definition show_int :: "int \<Rightarrow> string" where
  "show_int i = (if i < 0 then CHR ''-'' # show_nat (nat (- i)) else show_nat (nat i))"

fun dumps_items :: "(string \<times> int) list \<Rightarrow> string" where
  "dumps_items [] = []"
| "dumps_items [(k, v)] = [CHR 0x22] @ k @ [CHR 0x22] @ '': '' @ show_int v"
| "dumps_items ((k, v) # kv # rest) =
     [CHR 0x22] @ k @ [CHR 0x22] @ '': '' @ show_int v @ '', '' @ dumps_items (kv # rest)"

definition dumps_plain :: "(string \<times> int) list \<Rightarrow> string" where
  "dumps_plain d = ''{'' @ dumps_items d @ ''}''"


section \<open>Vocabulary for the statements\<close>

definition store_ext :: "store \<Rightarrow> store \<Rightarrow> bool" where
  "store_ext s s' = (next_ref s \<le> next_ref s' \<and> (\<forall>r<next_ref s. cells s' r = cells s r))"

definition slot_step ::
  "ref list \<Rightarrow> string \<Rightarrow> string set \<Rightarrow> store \<Rightarrow> nat \<Rightarrow> ref \<times> string set \<times> store \<times> nat \<Rightarrow> bool" where
  "slot_step pool mt used s k res =
     (case res of (r, used', s', k') \<Rightarrow>
        (if pool = [] then
           r = next_ref s \<and> used' = used \<and> k' = k
           \<and> s' = s\<lparr>cells := (cells s)(next_ref s := create_fallback_meal mt ''vegetarian''),
                    next_ref := Suc (next_ref s)\<rparr>
         else
           r \<in> set pool \<and> used' = insert (the (name (cells s r))) used \<and> s' = s \<and> k' = Suc k
           \<and> (the (name (cells s r)) \<in> used \<longrightarrow> (\<forall>x\<in>set pool. the (name (cells s x)) \<in> used))))"

definition slots :: "string list" where
  "slots = [''breakfast'', ''lunch'', ''dinner'']"

definition pools_ok :: "pools \<Rightarrow> store \<Rightarrow> bool" where
  "pools_ok ps s =
     (\<forall>mt\<in>set slots. \<forall>r\<in>set (pool_get ps mt). r < next_ref s \<and> name (cells s r) \<noteq> None)"

definition variety_value :: "recipe list \<Rightarrow> string option list \<Rightarrow> rat" where
  "variety_value ms recent =
     min 10 (if ms \<noteq> [] then of_nat (card (set (map name ms) - set recent)) / of_nat (length ms) * 10
             else 5)"

definition day_of :: "history_entry list option \<Rightarrow> store \<Rightarrow> ref \<Rightarrow> ref \<Rightarrow> ref \<Rightarrow> day_plan" where
  "day_of history_file s b l d =
     \<lparr>meals = [(''breakfast'', b), (''lunch'', l), (''dinner'', d)],
      total_calories = get_or (calories (cells s b)) 300 + get_or (calories (cells s l)) 400
                         + get_or (calories (cells s d)) 350,
      nutrition_score = calculate_nutrition_score [cells s b, cells s l, cells s d],
      variety_score = variety_value [cells s b, cells s l, cells s d]
                        (get_user_meal_history_scores history_file)\<rparr>"

definition slot_picks :: "string \<Rightarrow> weekly_plan \<Rightarrow> ref list" where
  "slot_picks mt wp = concat (map (\<lambda>(day, p). map snd (filter (\<lambda>(m, r). m = mt) (meals p))) wp)"

definition late_rep :: "string set \<Rightarrow> string list \<Rightarrow> bool" where
  "late_rep N ns = (\<forall>i<length ns. ns ! i \<in> set (take i ns) \<longrightarrow> N \<subseteq> set (take i ns))"

definition slot_inv ::
  "store \<Rightarrow> store \<Rightarrow> ref list \<Rightarrow> string \<Rightarrow> string set \<Rightarrow> ref list \<Rightarrow> bool" where
  "slot_inv s0 s pool mt used picks =
     (if pool = [] then
        used = {} \<and> (\<forall>r\<in>set picks. next_ref s0 \<le> r \<and> r < next_ref s
                        \<and> cells s r = create_fallback_meal mt ''vegetarian'')
      else
        set picks \<subseteq> set pool
        \<and> used = (\<lambda>r. the (name (cells s0 r))) ` set picks
        \<and> late_rep ((\<lambda>r. the (name (cells s0 r))) ` set pool)
             (map (\<lambda>r. the (name (cells s0 r))) picks))"

definition day_inv :: "history_entry list option \<Rightarrow> store \<Rightarrow> day_plan \<Rightarrow> bool" where
  "day_inv history_file s p =
     (\<exists>b l d. p = day_of history_file s b l d \<and> b < next_ref s \<and> l < next_ref s \<and> d < next_ref s)"

definition week_inv ::
  "history_entry list option \<Rightarrow> store \<Rightarrow> pools \<Rightarrow> weekly_plan \<Rightarrow> gen_state \<Rightarrow> bool" where
  "week_inv history_file s0 ps wp g =
     (store_ext s0 (heap g)
      \<and> (\<forall>x\<in>set wp. day_inv history_file (heap g) (snd x))
      \<and> slot_inv s0 (heap g) (pool_get ps ''breakfast'') ''breakfast'' (used_breakfasts g)
           (slot_picks ''breakfast'' wp)
      \<and> slot_inv s0 (heap g) (pool_get ps ''lunch'') ''lunch'' (used_lunches g)
           (slot_picks ''lunch'' wp)
      \<and> slot_inv s0 (heap g) (pool_get ps ''dinner'') ''dinner'' (used_dinners g)
           (slot_picks ''dinner'' wp))"

definition sample_get :: "(string \<times> recipe list) list \<Rightarrow> string \<Rightarrow> recipe list" where
  "sample_get recipes mt = (case map_of recipes mt of None \<Rightarrow> [] | Some rs \<Rightarrow> rs)"

section \<open>Facts about the normalizer\<close>

lemma py_int_close: "\<bar>of_int (py_int q) - q\<bar> < 1"
  unfolding py_int_def by (auto; linarith)

lemma fst_scale_days:
  "fst (scale_days f ds h) =
     map (\<lambda>(day, p). (day, p\<lparr>total_calories := py_int (of_int (total_calories p) * f)\<rparr>)) ds"
  by (induction ds arbitrary: h) (auto simp: Let_def)

lemma length_scale_days: "length (fst (scale_days f ds h)) = length ds"
  by (simp add: fst_scale_days)

lemma scaled_total_close:
  "\<bar>of_int (weekly_total (fst (scale_days f ds h))) - f * of_int (weekly_total ds)\<bar>
     \<le> (of_nat (length ds) :: rat)"
proof (induction ds arbitrary: h)
  case Nil
  show ?case by (simp add: weekly_total_def)
next
  case (Cons a ds)
  obtain day p where a: "a = (day, p)" by (cases a)
  let ?h1 = "scale_meals f (meals p) h"
  let ?x = "of_int (total_calories p) * f"
  have step: "\<bar>of_int (py_int ?x) - ?x\<bar> < 1" by (rule py_int_close)
  have ih: "\<bar>of_int (weekly_total (fst (scale_days f ds ?h1))) - f * of_int (weekly_total ds)\<bar>
      \<le> (of_nat (length ds) :: rat)" by (rule Cons.IH)
  have split: "of_int (weekly_total (fst (scale_days f (a # ds) h))) - f * of_int (weekly_total (a # ds))
      = (of_int (py_int ?x) - ?x)
        + (of_int (weekly_total (fst (scale_days f ds ?h1))) - f * of_int (weekly_total ds))"
    by (simp add: a weekly_total_def Let_def algebra_simps)
  show ?case unfolding split using step ih by simp
qed


lemma optimize_noop:
  "\<not> 0 < weekly_total weekly_plan \<Longrightarrow> optimize_with_ai weekly_plan user_preferences s = (weekly_plan, s)"
  by (simp add: optimize_with_ai_def Let_def)

lemma optimize_plan_positive:
  "0 < weekly_total weekly_plan \<Longrightarrow>
   fst (optimize_with_ai weekly_plan user_preferences s) =
     fst (scale_days (of_int (get_calorie_target user_preferences * 7) / of_int (weekly_total weekly_plan))
            weekly_plan (cells s))"
  by (simp add: optimize_with_ai_def Let_def)

lemma scores_scale_days:
  "map (\<lambda>(day, p). (day, nutrition_score p, variety_score p)) (fst (scale_days f ds h)) =
   map (\<lambda>(day, p). (day, nutrition_score p, variety_score p)) ds"
  by (simp add: fst_scale_days case_prod_unfold)

section \<open>Facts about selection and assembly\<close>

lemma str_prefix_iff: "str_prefix a s \<longleftrightarrow> (\<exists>q. s = a @ q)"
  by (induction a s rule: str_prefix.induct) auto

lemma str_in_iff: "str_in a s \<longleftrightarrow> (\<exists>p q. s = p @ a @ q)"
proof (induction s)
  case Nil
  show ?case by auto
next
  case (Cons c s)
  show ?case
  proof
    assume "str_in a (c # s)"
    then consider "str_prefix a (c # s)" | "str_in a s" by auto
    then show "\<exists>p q. c # s = p @ a @ q"
    proof cases
      case 1
      then obtain q where "c # s = a @ q" by (auto simp: str_prefix_iff)
      then have "c # s = [] @ a @ q" by simp
      then show ?thesis by blast
    next
      case 2
      then obtain p q where "s = p @ a @ q" using Cons.IH by auto
      then have "c # s = (c # p) @ a @ q" by simp
      then show ?thesis by blast
    qed
  next
    assume "\<exists>p q. c # s = p @ a @ q"
    then obtain p q where e: "c # s = p @ a @ q" by auto
    show "str_in a (c # s)"
    proof (cases p)
      case Nil
      then have "str_prefix a (c # s)" using e by (auto simp: str_prefix_iff)
      then show ?thesis by simp
    next
      case (Cons x p')
      then have "s = p' @ a @ q" using e by simp
      then have "str_in a s" using Cons.IH by auto
      then show ?thesis by simp
    qed
  qed
qed

lemma random_choice_mem: "xs \<noteq> [] \<Longrightarrow> random_choice rnd k xs \<in> set xs"
  by (simp add: random_choice_def)

lemma pick_recipe_empty: "pick_recipe rnd h [] used k = Inr (None, used, k)"
  by (simp add: pick_recipe_def)

lemma pick_recipe_nonempty:
  assumes "pool \<noteq> []" and "\<forall>r\<in>set pool. name (h r) \<noteq> None"
  shows "\<exists>c. pick_recipe rnd h pool used k = Inr (Some c, insert (the (name (h c))) used, Suc k)
           \<and> c \<in> set pool
           \<and> (the (name (h c)) \<in> used \<longrightarrow> (\<forall>r\<in>set pool. the (name (h r)) \<in> used))"
proof -
  let ?cands = "filter (\<lambda>r. the (name (h r)) \<notin> used) pool"
  have nk: "\<not> list_ex (\<lambda>r. name (h r) = None) pool" using assms(2) by (simp add: list_ex_iff)
  show ?thesis
  proof (cases "?cands = []")
    case True
    then have all: "\<forall>r\<in>set pool. the (name (h r)) \<in> used" by (auto simp: filter_empty_conv)
    have "random_choice rnd k pool \<in> set pool" using assms(1) by (rule random_choice_mem)
    then show ?thesis using True all assms(1) nk by (simp add: pick_recipe_def Let_def)
  next
    case False
    then have m: "random_choice rnd k ?cands \<in> set ?cands" by (rule random_choice_mem)
    then show ?thesis using False assms(1) nk by (simp add: pick_recipe_def Let_def)
  qed
qed

lemma store_ext_refl: "store_ext s s"
  by (simp add: store_ext_def)

lemma store_ext_trans: "store_ext a b \<Longrightarrow> store_ext b c \<Longrightarrow> store_ext a c"
  by (auto simp: store_ext_def)

lemma store_ext_alloc: "store_ext s (snd (alloc r s))"
  by (simp add: store_ext_def alloc_def)

lemma pick_or_fallback_spec:
  assumes "\<forall>r\<in>set pool. name (cells s r) \<noteq> None"
  shows "\<exists>res. pick_or_fallback rnd pool mt used s k = Inr res \<and> slot_step pool mt used s k res"
proof (cases "pool = []")
  case True
  then show ?thesis
    by (simp add: pick_or_fallback_def pick_recipe_empty slot_step_def alloc_def Let_def)
next
  case False
  from pick_recipe_nonempty[OF False assms, of rnd used k]
  obtain c where c: "pick_recipe rnd (cells s) pool used k
        = Inr (Some c, insert (the (name (cells s c))) used, Suc k)"
     and m: "c \<in> set pool"
     and l: "the (name (cells s c)) \<in> used \<longrightarrow> (\<forall>r\<in>set pool. the (name (cells s r)) \<in> used)"
    by blast
  show ?thesis using False c m l by (simp add: pick_or_fallback_def slot_step_def)
qed

lemma slot_step_ext: "slot_step pool mt used s k (r, used', s', k') \<Longrightarrow> store_ext s s'"
  by (auto simp: slot_step_def store_ext_def split: if_splits)

lemma slot_step_named:
  assumes "slot_step pool mt used s k (r, used', s', k')"
    and "\<forall>x\<in>set pool. name (cells s x) \<noteq> None"
  shows "name (cells s' r) \<noteq> None"
  using assms by (auto simp: slot_step_def create_fallback_meal_def split: if_splits)

lemma slot_step_valid:
  assumes "slot_step pool mt used s k (r, used', s', k')"
    and "\<forall>x\<in>set pool. x < next_ref s"
  shows "r < next_ref s'"
  using assms by (auto simp: slot_step_def split: if_splits)

lemma pools_ok_ext: "pools_ok ps s \<Longrightarrow> store_ext s s' \<Longrightarrow> pools_ok ps s'"
  unfolding pools_ok_def store_ext_def by (metis less_le_trans)

lemma pools_okD:
  "pools_ok ps s \<Longrightarrow> mt \<in> set slots \<Longrightarrow>
     (\<forall>r\<in>set (pool_get ps mt). name (cells s r) \<noteq> None) \<and> (\<forall>r\<in>set (pool_get ps mt). r < next_ref s)"
  by (simp add: pools_ok_def)

lemma calculate_variety_score_named:
  "\<forall>m\<in>set ms. name m \<noteq> None \<Longrightarrow> calculate_variety_score ms recent = Inr (variety_value ms recent)"
  by (simp add: calculate_variety_score_def variety_value_def list_ex_iff Let_def)

lemma generate_daily_plan_spec:
  assumes ok: "pools_ok ps (heap g)"
  shows "\<exists>b ub s1 k1 l ul s2 k2 d ud s3 k3.
      slot_step (pool_get ps ''breakfast'') ''breakfast'' (used_breakfasts g) (heap g) (draws g) (b, ub, s1, k1)
    \<and> slot_step (pool_get ps ''lunch'') ''lunch'' (used_lunches g) s1 k1 (l, ul, s2, k2)
    \<and> slot_step (pool_get ps ''dinner'') ''dinner'' (used_dinners g) s2 k2 (d, ud, s3, k3)
    \<and> generate_daily_plan rnd history_file ps i target g =
        Inr (day_of history_file s3 b l d,
             \<lparr>heap = s3, used_breakfasts = ub, used_lunches = ul, used_dinners = ud, draws = k3\<rparr>)"
proof -
  have sl: "''breakfast'' \<in> set slots" "''lunch'' \<in> set slots" "''dinner'' \<in> set slots"
    by (simp_all add: slots_def)
  note okb = pools_okD[OF ok sl(1)]
  from pick_or_fallback_spec[OF okb[THEN conjunct1]]
  obtain b ub s1 k1 where
    pb: "pick_or_fallback rnd (pool_get ps ''breakfast'') ''breakfast'' (used_breakfasts g) (heap g) (draws g)
          = Inr (b, ub, s1, k1)"
    and sb: "slot_step (pool_get ps ''breakfast'') ''breakfast'' (used_breakfasts g) (heap g) (draws g) (b, ub, s1, k1)"
    by (metis prod_cases4)
  have e1: "store_ext (heap g) s1" using sb by (rule slot_step_ext)
  have ok1: "pools_ok ps s1" using ok e1 by (rule pools_ok_ext)
  note okl = pools_okD[OF ok1 sl(2)]
  from pick_or_fallback_spec[OF okl[THEN conjunct1]]
  obtain l ul s2 k2 where
    pl: "pick_or_fallback rnd (pool_get ps ''lunch'') ''lunch'' (used_lunches g) s1 k1 = Inr (l, ul, s2, k2)"
    and sl2: "slot_step (pool_get ps ''lunch'') ''lunch'' (used_lunches g) s1 k1 (l, ul, s2, k2)"
    by (metis prod_cases4)
  have e2: "store_ext s1 s2" using sl2 by (rule slot_step_ext)
  have ok2: "pools_ok ps s2" using ok1 e2 by (rule pools_ok_ext)
  note okd = pools_okD[OF ok2 sl(3)]
  from pick_or_fallback_spec[OF okd[THEN conjunct1]]
  obtain d ud s3 k3 where
    pd: "pick_or_fallback rnd (pool_get ps ''dinner'') ''dinner'' (used_dinners g) s2 k2 = Inr (d, ud, s3, k3)"
    and sd: "slot_step (pool_get ps ''dinner'') ''dinner'' (used_dinners g) s2 k2 (d, ud, s3, k3)"
    by (metis prod_cases4)
  have e3: "store_ext s2 s3" using sd by (rule slot_step_ext)
  have nb1: "name (cells s1 b) \<noteq> None" using sb okb[THEN conjunct1] by (rule slot_step_named)
  have vb1: "b < next_ref s1" using sb okb[THEN conjunct2] by (rule slot_step_valid)
  have nl2: "name (cells s2 l) \<noteq> None" using sl2 okl[THEN conjunct1] by (rule slot_step_named)
  have vl2: "l < next_ref s2" using sl2 okl[THEN conjunct2] by (rule slot_step_valid)
  have nd3: "name (cells s3 d) \<noteq> None" using sd okd[THEN conjunct1] by (rule slot_step_named)
  have nl3: "name (cells s3 l) \<noteq> None" using nl2 vl2 e3 by (simp add: store_ext_def)
  have "cells s3 b = cells s1 b" using vb1 e2 e3 by (auto simp: store_ext_def)
  then have nb3: "name (cells s3 b) \<noteq> None" using nb1 by simp
  have v: "calculate_variety_score [cells s3 b, cells s3 l, cells s3 d]
             (get_user_meal_history_scores history_file)
           = Inr (variety_value [cells s3 b, cells s3 l, cells s3 d]
                    (get_user_meal_history_scores history_file))"
    by (rule calculate_variety_score_named) (use nb3 nl3 nd3 in auto)
  have "generate_daily_plan rnd history_file ps i target g =
        Inr (day_of history_file s3 b l d,
             \<lparr>heap = s3, used_breakfasts = ub, used_lunches = ul, used_dinners = ud, draws = k3\<rparr>)"
    by (simp add: generate_daily_plan_def pb pl pd Let_def v day_of_def)
  with sb sl2 sd show ?thesis by blast
qed

lemma late_rep_Nil: "late_rep N []"
  by (simp add: late_rep_def)

lemma late_rep_snoc:
  assumes "late_rep N ns" and "n \<in> set ns \<longrightarrow> N \<subseteq> set ns"
  shows "late_rep N (ns @ [n])"
  unfolding late_rep_def
proof (intro allI impI)
  fix i assume i: "i < length (ns @ [n])" and m: "(ns @ [n]) ! i \<in> set (take i (ns @ [n]))"
  show "N \<subseteq> set (take i (ns @ [n]))"
  proof (cases "i < length ns")
    case True
    then have "(ns @ [n]) ! i = ns ! i" "take i (ns @ [n]) = take i ns" by (simp_all add: nth_append)
    with m assms(1) True show ?thesis by (simp add: late_rep_def)
  next
    case False
    with i have "i = length ns" by simp
    with m assms(2) show ?thesis by simp
  qed
qed

lemma late_rep_distinct:
  assumes "late_rep N ns" and "finite N" and "length ns \<le> card N"
  shows "distinct ns"
proof (rule ccontr)
  assume "\<not> distinct ns"
  then obtain i j where ij: "i < j" "j < length ns" "ns ! i = ns ! j"
    by (metis distinct_conv_nth nat_neq_iff)
  then have "ns ! j \<in> set (take j ns)"
    by (metis in_set_conv_nth length_take min.absorb2 nat_less_le nth_take)
  with assms(1) ij have "N \<subseteq> set (take j ns)" by (simp add: late_rep_def)
  then have "card N \<le> card (set (take j ns))" by (simp add: card_mono)
  also have "\<dots> \<le> length (take j ns)" by (rule card_length)
  also have "\<dots> < length ns" using ij by simp
  finally show False using assms(3) by simp
qed

lemma slot_inv_ext:
  "slot_inv s0 s pool mt used picks \<Longrightarrow> store_ext s s' \<Longrightarrow> slot_inv s0 s' pool mt used picks"
  unfolding slot_inv_def store_ext_def by (auto split: if_splits)

lemma slot_inv_step:
  assumes inv: "slot_inv s0 s pool mt used picks"
    and st: "slot_step pool mt used s k (r, used', s', k')"
    and ext: "store_ext s0 s"
    and v: "\<forall>x\<in>set pool. x < next_ref s0"
  shows "slot_inv s0 s' pool mt used' (picks @ [r])"
proof (cases "pool = []")
  case True
  then show ?thesis using inv st ext
    by (auto simp: slot_inv_def slot_step_def store_ext_def)
next
  case False
  let ?nm = "\<lambda>r. the (name (cells s0 r))"
  have same: "\<And>x. x \<in> set pool \<Longrightarrow> cells s x = cells s0 x"
    using v ext by (simp add: store_ext_def)
  from st False have r: "r \<in> set pool" and u: "used' = insert (the (name (cells s r))) used"
    and l: "the (name (cells s r)) \<in> used \<longrightarrow> (\<forall>x\<in>set pool. the (name (cells s x)) \<in> used)"
    by (simp_all add: slot_step_def)
  from inv False have p: "set picks \<subseteq> set pool" and us: "used = ?nm ` set picks"
    and lr: "late_rep (?nm ` set pool) (map ?nm picks)"
    by (simp_all add: slot_inv_def)
  have u': "used' = ?nm ` set (picks @ [r])" using u us same[OF r] by auto
  have "?nm r \<in> set (map ?nm picks) \<longrightarrow> ?nm ` set pool \<subseteq> set (map ?nm picks)"
    using l us same r by auto
  from late_rep_snoc[OF lr this]
  have "late_rep (?nm ` set pool) (map ?nm (picks @ [r]))" by simp
  then show ?thesis using False r p u' by (simp add: slot_inv_def)
qed

lemma update_fresh: "k \<notin> fst ` set al \<Longrightarrow> AList.update k v al = al @ [(k, v)]"
  by (induction al) auto

lemma day_inv_ext:
  assumes "day_inv history_file s p" and "store_ext s s'"
  shows "day_inv history_file s' p"
proof -
  from assms(1) obtain b l d where p: "p = day_of history_file s b l d"
    and v: "b < next_ref s" "l < next_ref s" "d < next_ref s"
    by (auto simp: day_inv_def)
  from v assms(2) have c: "cells s' b = cells s b" "cells s' l = cells s l" "cells s' d = cells s d"
    and v': "b < next_ref s'" "l < next_ref s'" "d < next_ref s'"
    by (auto simp: store_ext_def)
  have "day_of history_file s' b l d = day_of history_file s b l d"
    by (simp add: day_of_def c)
  with p v' show ?thesis unfolding day_inv_def by metis
qed

lemma slot_picks_snoc:
  "slot_picks mt (wp @ [(day, day_of history_file s b l d)]) =
     slot_picks mt wp @ (if mt = ''breakfast'' then [b] else [])
       @ (if mt = ''lunch'' then [l] else []) @ (if mt = ''dinner'' then [d] else [])"
  by (simp add: slot_picks_def day_of_def)

lemma generate_daily_plan_inv:
  assumes ok0: "pools_ok ps s0"
    and inv: "week_inv history_file s0 ps wp g"
    and fresh: "day \<notin> fst ` set wp"
  shows "\<exists>dp g'. generate_daily_plan rnd history_file ps i target g = Inr (dp, g')
           \<and> week_inv history_file s0 ps (AList.update day dp wp) g'"
proof -
  have sl: "''breakfast'' \<in> set slots" "''lunch'' \<in> set slots" "''dinner'' \<in> set slots"
    by (simp_all add: slots_def)
  from inv have e0: "store_ext s0 (heap g)"
    and days: "\<forall>x\<in>set wp. day_inv history_file (heap g) (snd x)"
    and ib: "slot_inv s0 (heap g) (pool_get ps ''breakfast'') ''breakfast'' (used_breakfasts g)
               (slot_picks ''breakfast'' wp)"
    and il: "slot_inv s0 (heap g) (pool_get ps ''lunch'') ''lunch'' (used_lunches g)
               (slot_picks ''lunch'' wp)"
    and id: "slot_inv s0 (heap g) (pool_get ps ''dinner'') ''dinner'' (used_dinners g)
               (slot_picks ''dinner'' wp)"
    by (simp_all add: week_inv_def)
  have ok: "pools_ok ps (heap g)" using ok0 e0 by (rule pools_ok_ext)
  from generate_daily_plan_spec[OF ok, of rnd history_file i target]
  obtain b ub s1 k1 l ul s2 k2 d ud s3 k3 where
    sb: "slot_step (pool_get ps ''breakfast'') ''breakfast'' (used_breakfasts g) (heap g) (draws g) (b, ub, s1, k1)"
    and sl2: "slot_step (pool_get ps ''lunch'') ''lunch'' (used_lunches g) s1 k1 (l, ul, s2, k2)"
    and sd: "slot_step (pool_get ps ''dinner'') ''dinner'' (used_dinners g) s2 k2 (d, ud, s3, k3)"
    and run: "generate_daily_plan rnd history_file ps i target g =
        Inr (day_of history_file s3 b l d,
             \<lparr>heap = s3, used_breakfasts = ub, used_lunches = ul, used_dinners = ud, draws = k3\<rparr>)"
    by blast
  have e1: "store_ext (heap g) s1" using sb by (rule slot_step_ext)
  have e2: "store_ext s1 s2" using sl2 by (rule slot_step_ext)
  have e3: "store_ext s2 s3" using sd by (rule slot_step_ext)
  have e01: "store_ext s0 s1" using e0 e1 by (rule store_ext_trans)
  have e02: "store_ext s0 s2" using e01 e2 by (rule store_ext_trans)
  have e03: "store_ext s0 s3" using e02 e3 by (rule store_ext_trans)
  have e13: "store_ext s1 s3" using e2 e3 by (rule store_ext_trans)
  have eg3: "store_ext (heap g) s3" using e1 e13 by (rule store_ext_trans)
  note v0b = pools_okD[OF ok0 sl(1), THEN conjunct2]
  note v0l = pools_okD[OF ok0 sl(2), THEN conjunct2]
  note v0d = pools_okD[OF ok0 sl(3), THEN conjunct2]
  have ok1: "pools_ok ps s1" using ok e1 by (rule pools_ok_ext)
  have ok2: "pools_ok ps s2" using ok1 e2 by (rule pools_ok_ext)
  have vb: "b < next_ref s1" using sb pools_okD[OF ok sl(1), THEN conjunct2] by (rule slot_step_valid)
  have vl: "l < next_ref s2" using sl2 pools_okD[OF ok1 sl(2), THEN conjunct2] by (rule slot_step_valid)
  have vd: "d < next_ref s3" using sd pools_okD[OF ok2 sl(3), THEN conjunct2] by (rule slot_step_valid)
  have vb3: "b < next_ref s3" using vb e13 by (simp add: store_ext_def)
  have vl3: "l < next_ref s3" using vl e3 by (simp add: store_ext_def)
  have ib': "slot_inv s0 s3 (pool_get ps ''breakfast'') ''breakfast'' ub (slot_picks ''breakfast'' wp @ [b])"
    using slot_inv_step[OF ib sb e0 v0b] e13 by (rule slot_inv_ext)
  have il': "slot_inv s0 s3 (pool_get ps ''lunch'') ''lunch'' ul (slot_picks ''lunch'' wp @ [l])"
    using slot_inv_step[OF slot_inv_ext[OF il e1] sl2 e01 v0l] e3 by (rule slot_inv_ext)
  have id': "slot_inv s0 s3 (pool_get ps ''dinner'') ''dinner'' ud (slot_picks ''dinner'' wp @ [d])"
    using slot_inv_ext[OF id store_ext_trans[OF e1 e2]] sd e02 v0d by (rule slot_inv_step)
  have new: "day_inv history_file s3 (day_of history_file s3 b l d)"
    unfolding day_inv_def using vb3 vl3 vd by blast
  have old: "\<forall>x\<in>set wp. day_inv history_file s3 (snd x)"
    using days eg3 by (blast intro: day_inv_ext)
  let ?wp = "wp @ [(day, day_of history_file s3 b l d)]"
  have upd: "AList.update day (day_of history_file s3 b l d) wp = ?wp"
    using fresh by (rule update_fresh)
  have "week_inv history_file s0 ps ?wp
          \<lparr>heap = s3, used_breakfasts = ub, used_lunches = ul, used_dinners = ud, draws = k3\<rparr>"
    using e03 new old ib' il' id' by (simp add: week_inv_def slot_picks_snoc)
  with run upd show ?thesis by simp
qed

lemma update_keys_fresh: "k \<notin> fst ` set al \<Longrightarrow> map fst (AList.update k v al) = map fst al @ [k]"
  by (simp add: update_fresh)

lemma generate_days_inv:
  assumes ok0: "pools_ok ps s0"
    and inv: "week_inv history_file s0 ps wp g"
    and dist: "distinct (map snd rest)"
    and fresh: "fst ` set wp \<inter> snd ` set rest = {}"
  shows "\<exists>wp' g'. generate_days rnd history_file ps target rest wp g = Inr (wp', g')
           \<and> week_inv history_file s0 ps wp' g' \<and> map fst wp' = map fst wp @ map snd rest"
  using inv dist fresh
proof (induction rest arbitrary: wp g)
  case Nil
  then show ?case by simp
next
  case (Cons a rest)
  obtain i day where a: "a = (i, day)" by (cases a)
  have f: "day \<notin> fst ` set wp" using Cons.prems(3) a by auto
  from generate_daily_plan_inv[OF ok0 Cons.prems(1) f, of rnd i target]
  obtain dp g' where run: "generate_daily_plan rnd history_file ps i target g = Inr (dp, g')"
    and inv': "week_inv history_file s0 ps (AList.update day dp wp) g'"
    by blast
  have d': "distinct (map snd rest)" using Cons.prems(2) by simp
  have keys: "map fst (AList.update day dp wp) = map fst wp @ [day]" using f by (rule update_keys_fresh)
  have "fst ` set (AList.update day dp wp) = insert day (fst ` set wp)"
    using keys by (metis (no_types, lifting) Un_insert_right list.set(1,2) set_append set_map sup_bot.right_neutral)
  then have f': "fst ` set (AList.update day dp wp) \<inter> snd ` set rest = {}"
    using Cons.prems(2,3) a by auto
  from Cons.IH[OF inv' d' f']
  obtain wp' g'' where r: "generate_days rnd history_file ps target rest (AList.update day dp wp) g' = Inr (wp', g'')"
    and i'': "week_inv history_file s0 ps wp' g''"
    and k: "map fst wp' = map fst (AList.update day dp wp) @ map snd rest"
    by blast
  show ?case using a run r i'' k keys by simp
qed

section \<open>Facts about a whole run\<close>

lemma make_pools_get:
  "mt \<in> set slots \<Longrightarrow>
     pool_get (make_pools dumps lower h recipes diet al) mt
       = filter_pool dumps lower h (pool_get recipes mt) diet al"
  by (auto simp: make_pools_def pool_get_def slots_def)

lemma pools_ok_make_pools:
  assumes "pools_ok recipes s"
  shows "pools_ok (make_pools dumps lower (cells s) recipes diet al) s"
  unfolding pools_ok_def
proof (intro ballI)
  fix mt r assume mt: "mt \<in> set slots"
    and r: "r \<in> set (pool_get (make_pools dumps lower (cells s) recipes diet al) mt)"
  from r have "r \<in> set (pool_get recipes mt)"
    by (simp add: make_pools_get[OF mt] filter_pool_def)
  with assms mt show "r < next_ref s \<and> name (cells s r) \<noteq> None" by (simp add: pools_ok_def)
qed

lemma week_inv_start:
  "week_inv history_file s ps []
     \<lparr>heap = s, used_breakfasts = {}, used_lunches = {}, used_dinners = {}, draws = 0\<rparr>"
  by (simp add: week_inv_def slot_inv_def slot_picks_def late_rep_def store_ext_refl)

lemma enumerate_days: "map snd (enumerate days) = days"
  by (simp add: enumerate_def days_def upt_rec)

lemma distinct_days: "distinct days"
  by (simp add: days_def)

lemma generate_week:
  assumes "pools_ok ps s"
  shows "\<exists>wp g. generate_days rnd history_file ps target (enumerate days) []
             \<lparr>heap = s, used_breakfasts = {}, used_lunches = {}, used_dinners = {}, draws = 0\<rparr>
           = Inr (wp, g)
         \<and> week_inv history_file s ps wp g \<and> map fst wp = days"
proof -
  have d: "distinct (map snd (enumerate days))" by (simp add: enumerate_days distinct_days)
  have f: "fst ` set ([] :: weekly_plan) \<inter> snd ` set (enumerate days) = {}" by simp
  from generate_days_inv[OF assms week_inv_start d f, of rnd history_file target]
  show ?thesis by (simp add: enumerate_days)
qed

lemma scale_meals_other: "r \<notin> snd ` set ms \<Longrightarrow> scale_meals f ms h r = h r"
  by (induction ms arbitrary: h) auto

lemma name_scale_recipe: "name (scale_recipe f r) = name r"
  by (simp add: scale_recipe_def)

lemma name_scale_meals: "name (scale_meals f ms h r) = name (h r)"
  by (induction ms arbitrary: h) (auto simp: name_scale_recipe)

lemma name_scale_days: "name (snd (scale_days f ds h) r) = name (h r)"
  by (induction ds arbitrary: h) (auto simp: Let_def name_scale_meals)

lemma meals_scale_days:
  "map (\<lambda>(day, p). (day, meals p)) (fst (scale_days f ds h)) = map (\<lambda>(day, p). (day, meals p)) ds"
  by (simp add: fst_scale_days case_prod_unfold)

lemma meals_optimize:
  "map (\<lambda>(day, p). (day, meals p)) (fst (optimize_with_ai wp prefs s))
     = map (\<lambda>(day, p). (day, meals p)) wp"
  by (cases "0 < weekly_total wp") (simp_all add: optimize_plan_positive optimize_noop meals_scale_days)

lemma name_optimize: "name (cells (snd (optimize_with_ai wp prefs s)) r) = name (cells s r)"
  by (simp add: optimize_with_ai_def Let_def name_scale_days)

lemma next_ref_optimize: "next_ref (snd (optimize_with_ai wp prefs s)) = next_ref s"
  by (simp add: optimize_with_ai_def Let_def)

lemma slot_picks_meals:
  "map (\<lambda>(day, p). (day, meals p)) wp' = map (\<lambda>(day, p). (day, meals p)) wp
     \<Longrightarrow> slot_picks mt wp' = slot_picks mt wp"
proof (induction wp arbitrary: wp')
  case Nil
  then show ?case by (simp add: slot_picks_def)
next
  case (Cons a wp)
  then obtain a' wp'' where w: "wp' = a' # wp''" by (cases wp') auto
  with Cons.prems have h: "meals (snd a') = meals (snd a)"
    and t: "map (\<lambda>(day, p). (day, meals p)) wp'' = map (\<lambda>(day, p). (day, meals p)) wp"
    by (auto simp: case_prod_unfold)
  from Cons.IH[OF t] h w show ?case by (simp add: slot_picks_def case_prod_unfold)
qed

lemma keys_meals:
  "map (\<lambda>(day, p). (day, meals p)) wp' = map (\<lambda>(day, p). (day, meals p)) wp
     \<Longrightarrow> map fst wp' = map fst wp"
proof -
  assume a: "map (\<lambda>(day, p). (day, meals p)) wp' = map (\<lambda>(day, p). (day, meals p)) wp"
  have "map fst wp' = map fst (map (\<lambda>(day, p). (day, meals p)) wp')" by (simp add: case_prod_unfold comp_def)
  also have "\<dots> = map fst (map (\<lambda>(day, p). (day, meals p)) wp)" using a by simp
  also have "\<dots> = map fst wp" by (simp add: case_prod_unfold comp_def)
  finally show ?thesis .
qed

lemma generate_personalized_plan_run:
  assumes "pools_ok recipes s"
  shows "\<exists>wp g. week_inv history_file s
            (make_pools dumps lower (cells s) recipes (get_or (diet_type prefs) ''vegetarian'')
               (get_or (allergies prefs) [])) wp g
          \<and> map fst wp = days
          \<and> generate_personalized_plan dumps lower rnd history_file recipes prefs uid s
              = Inr (optimize_with_ai wp prefs (heap g))"
proof -
  let ?ps = "make_pools dumps lower (cells s) recipes (get_or (diet_type prefs) ''vegetarian'')
               (get_or (allergies prefs) [])"
  have ok: "pools_ok ?ps s" using assms by (rule pools_ok_make_pools)
  from generate_week[OF ok, of rnd history_file "get_or (calorie_target prefs) 2000"]
  obtain wp g where run: "generate_days rnd history_file ?ps (get_or (calorie_target prefs) 2000)
        (enumerate days) []
        \<lparr>heap = s, used_breakfasts = {}, used_lunches = {}, used_dinners = {}, draws = 0\<rparr> = Inr (wp, g)"
    and inv: "week_inv history_file s ?ps wp g" and k: "map fst wp = days"
    by blast
  have "generate_personalized_plan dumps lower rnd history_file recipes prefs uid s
          = Inr (optimize_with_ai wp prefs (heap g))"
    by (simp add: generate_personalized_plan_def Let_def run)
  with inv k show ?thesis by blast
qed

section \<open>Facts about \<open>SimpleMealGenerator\<close>\<close>

lemma simple_slot_spec:
  assumes "\<forall>r\<in>set (sample_get recipes mt). rtype r \<noteq> None \<and> calories r \<noteq> None"
  shows "\<exists>x c k'. simple_slot rnd recipes diet mt (Inr (d, k))
           = Inr (\<lparr>s_meals = AList.update mt x (s_meals d), s_total_calories = s_total_calories d + c\<rparr>, k')"
proof -
  let ?av = "sample_get recipes mt"
  let ?fl = "filter (\<lambda>r. rtype r = Some diet \<or> diet = ''mixed'') ?av"
  have nk: "\<not> list_ex (\<lambda>r. rtype r = None) ?av" using assms by (auto simp: list_ex_iff)
  show ?thesis
  proof (cases "?fl = []")
    case True
    then have "simple_slot rnd recipes diet mt (Inr (d, k))
        = Inr (\<lparr>s_meals = AList.update mt (simple_fallback mt diet) (s_meals d),
                s_total_calories = s_total_calories d + 300\<rparr>, k)"
      using nk by (simp add: simple_slot_def sample_get_def Let_def)
    then show ?thesis by blast
  next
    case False
    then have "random_choice rnd k ?fl \<in> set ?fl" by (rule random_choice_mem)
    then have "random_choice rnd k ?fl \<in> set ?av" by simp
    with assms obtain c where c: "calories (random_choice rnd k ?fl) = Some c" by auto
    have "simple_slot rnd recipes diet mt (Inr (d, k))
        = Inr (\<lparr>s_meals = AList.update mt (random_choice rnd k ?fl) (s_meals d),
                s_total_calories = s_total_calories d + c\<rparr>, Suc k)"
      using False nk c by (simp add: simple_slot_def sample_get_def Let_def)
    then show ?thesis by blast
  qed
qed

lemma generate_daily_meal_plan_spec:
  assumes "\<forall>mt\<in>set slots. \<forall>r\<in>set (sample_get recipes mt). rtype r \<noteq> None \<and> calories r \<noteq> None"
  shows "\<exists>x y z t k'. generate_daily_meal_plan rnd recipes diet k
           = Inr (\<lparr>s_meals = [(''breakfast'', x), (''lunch'', y), (''dinner'', z)],
                   s_total_calories = t\<rparr>, k')"
proof -
  have a: "\<forall>r\<in>set (sample_get recipes ''breakfast''). rtype r \<noteq> None \<and> calories r \<noteq> None"
    and b: "\<forall>r\<in>set (sample_get recipes ''lunch''). rtype r \<noteq> None \<and> calories r \<noteq> None"
    and c: "\<forall>r\<in>set (sample_get recipes ''dinner''). rtype r \<noteq> None \<and> calories r \<noteq> None"
    using assms by (simp_all add: slots_def)
  let ?d0 = "\<lparr>s_meals = [], s_total_calories = 0\<rparr>"
  from simple_slot_spec[OF a, of rnd diet ?d0 k] obtain x c1 k1 where
    1: "simple_slot rnd recipes diet ''breakfast'' (Inr (?d0, k))
          = Inr (\<lparr>s_meals = [(''breakfast'', x)], s_total_calories = c1\<rparr>, k1)" by auto
  from simple_slot_spec[OF b, of rnd diet "\<lparr>s_meals = [(''breakfast'', x)], s_total_calories = c1\<rparr>" k1]
  obtain y c2 k2 where
    2: "simple_slot rnd recipes diet ''lunch'' (Inr (\<lparr>s_meals = [(''breakfast'', x)], s_total_calories = c1\<rparr>, k1))
          = Inr (\<lparr>s_meals = [(''breakfast'', x), (''lunch'', y)], s_total_calories = c1 + c2\<rparr>, k2)" by auto
  from simple_slot_spec[OF c, of rnd diet "\<lparr>s_meals = [(''breakfast'', x), (''lunch'', y)], s_total_calories = c1 + c2\<rparr>" k2]
  obtain z c3 k3 where
    3: "simple_slot rnd recipes diet ''dinner''
          (Inr (\<lparr>s_meals = [(''breakfast'', x), (''lunch'', y)], s_total_calories = c1 + c2\<rparr>, k2))
          = Inr (\<lparr>s_meals = [(''breakfast'', x), (''lunch'', y), (''dinner'', z)],
                  s_total_calories = c1 + c2 + c3\<rparr>, k3)" by auto
  show ?thesis by (simp add: generate_daily_meal_plan_def 1 2 3)
qed

lemma simple_days_spec:
  assumes ok: "\<forall>mt\<in>set slots. \<forall>r\<in>set (sample_get recipes mt). rtype r \<noteq> None \<and> calories r \<noteq> None"
    and "\<forall>x\<in>set wp. map fst (s_meals (snd x)) = slots"
    and "distinct ds" and "fst ` set wp \<inter> set ds = {}"
  shows "\<exists>wp' k'. simple_days rnd recipes diet ds wp k = Inr (wp', k')
           \<and> map fst wp' = map fst wp @ ds
           \<and> (\<forall>x\<in>set wp'. map fst (s_meals (snd x)) = slots)"
  using assms(2-)
proof (induction ds arbitrary: wp k)
  case Nil
  then show ?case by simp
next
  case (Cons day ds)
  from generate_daily_meal_plan_spec[OF ok, of rnd diet k]
  obtain x y z t k1 where run: "generate_daily_meal_plan rnd recipes diet k
      = Inr (\<lparr>s_meals = [(''breakfast'', x), (''lunch'', y), (''dinner'', z)], s_total_calories = t\<rparr>, k1)"
    by blast
  let ?d = "\<lparr>s_meals = [(''breakfast'', x), (''lunch'', y), (''dinner'', z)], s_total_calories = t\<rparr>"
  have f: "day \<notin> fst ` set wp" using Cons.prems(3) by auto
  have u: "AList.update day ?d wp = wp @ [(day, ?d)]" using f by (rule update_fresh)
  have a: "\<forall>x\<in>set (wp @ [(day, ?d)]). map fst (s_meals (snd x)) = slots"
    using Cons.prems(1) by (auto simp: slots_def)
  have b: "distinct ds" using Cons.prems(2) by simp
  have c: "fst ` set (wp @ [(day, ?d)]) \<inter> set ds = {}" using Cons.prems(2,3) by auto
  from Cons.IH[OF a b c, of k1] show ?case using run u by simp
qed

lemma sample_recipes_ok:
  "\<forall>mt\<in>set slots. \<forall>r\<in>set (sample_get create_sample_recipes mt). rtype r \<noteq> None \<and> calories r \<noteq> None"
  by (simp add: slots_def sample_get_def create_sample_recipes_def mk_recipe_def)

lemma generate_weekly_plan_spec:
  "\<exists>wp k'. generate_weekly_plan rnd diet k = Inr (wp, k') \<and> map fst wp = days
      \<and> (\<forall>x\<in>set wp. map fst (s_meals (snd x)) = slots)"
proof -
  have a: "\<forall>x\<in>set ([] :: (string \<times> simple_day) list). map fst (s_meals (snd x)) = slots" by simp
  have c: "fst ` set ([] :: (string \<times> simple_day) list) \<inter> set days = {}" by simp
  from simple_days_spec[OF sample_recipes_ok a distinct_days c, of rnd diet k]
  show ?thesis by (simp add: generate_weekly_plan_def)
qed

lemma week_inv_days:
  assumes "week_inv history_file s0 ps wp g"
  shows "\<forall>x\<in>set wp. map fst (meals (snd x)) = slots
           \<and> (\<forall>r\<in>snd ` set (meals (snd x)). r < next_ref (heap g))"
  using assms by (auto simp: week_inv_def day_inv_def day_of_def slots_def)

section \<open>Claims about the normalizer\<close>

text \<open>
  C2. For a seven-day plan whose total calories before normalization are strictly positive,
  the sum of the days' \<open>total_calories\<close> after normalization differs from
  \<open>calorie_target * 7\<close> by at most 7; when the total before normalization is zero, the plan
  (and every recipe object) is returned unchanged.
\<close>

theorem normalize_calorie_conservation:
  assumes "length weekly_plan = 7"
  shows "(0 < weekly_total weekly_plan \<longrightarrow>
            \<bar>weekly_total (fst (optimize_with_ai weekly_plan user_preferences s))
               - get_calorie_target user_preferences * 7\<bar> \<le> 7)
         \<and> (weekly_total weekly_plan = 0 \<longrightarrow>
            optimize_with_ai weekly_plan user_preferences s = (weekly_plan, s))"
proof (intro conjI impI)
  assume pos: "0 < weekly_total weekly_plan"
  let ?T = "get_calorie_target user_preferences * 7"
  let ?S = "weekly_total weekly_plan"
  let ?f = "(of_int ?T / of_int ?S) :: rat"
  have fS: "?f * of_int ?S = of_int ?T" using pos by simp
  have "\<bar>of_int (weekly_total (fst (scale_days ?f weekly_plan (cells s)))) - ?f * of_int ?S\<bar>
          \<le> (of_nat (length weekly_plan) :: rat)"
    by (rule scaled_total_close)
  then have "\<bar>(of_int (weekly_total (fst (scale_days ?f weekly_plan (cells s))) - ?T) :: rat)\<bar> \<le> of_int 7"
    unfolding fS using assms by simp
  then have "\<bar>weekly_total (fst (scale_days ?f weekly_plan (cells s))) - ?T\<bar> \<le> 7"
    unfolding of_int_abs [symmetric] of_int_le_iff .
  then show "\<bar>weekly_total (fst (optimize_with_ai weekly_plan user_preferences s)) - ?T\<bar> \<le> 7"
    using pos by (simp add: optimize_plan_positive)
next
  assume "weekly_total weekly_plan = 0"
  then show "optimize_with_ai weekly_plan user_preferences s = (weekly_plan, s)"
    by (simp add: optimize_noop)
qed

text \<open>
  C10. Normalization leaves every day's \<open>nutrition_score\<close> and \<open>variety_score\<close> exactly as
  assembly computed them: the scores are not recomputed from the scaled values.
\<close>

theorem normalize_keeps_scores:
  "map (\<lambda>(day, p). (day, nutrition_score p, variety_score p))
       (fst (optimize_with_ai weekly_plan user_preferences s)) =
   map (\<lambda>(day, p). (day, nutrition_score p, variety_score p)) weekly_plan"
  by (cases "0 < weekly_total weekly_plan")
     (simp_all add: optimize_plan_positive optimize_noop scores_scale_days)

end
